theory Spec2Isabelle
  imports Main "HOL-Library.Char_ord" "HOL-Library.List_Lexorder"
begin

section \<open>Data model (types.ts)\<close>

text \<open>
  The records follow the interfaces of \<^verbatim>\<open>types.ts\<close>. The optional presentation fields
  (\<^verbatim>\<open>imageUrl\<close>, \<^verbatim>\<open>color\<close>) are read by no function modelled here and are left out.
  \<^verbatim>\<open>unlockable?: boolean\<close> is only ever tested for truthiness, so an absent flag is
  \<open>False\<close>. \<^verbatim>\<open>requiredUnits?: number\<close> and \<^verbatim>\<open>totalCost?: number\<close> keep their
  optionality. Unit costs are integers; counts and sizes are array lengths. The search
  budgets and the counter compared with them are JavaScript numbers, modelled as integers.
\<close>

record Unit =
  uid :: string
  name :: string
  cost :: int
  regions :: "string list"
  unlockable :: bool

record Region =
  rid :: string
  rname :: string
  requiredUnits :: "nat option"

record EmblemAssignment =
  unitId :: string
  region :: string

record TeamComposition =
  units :: "Unit list"
  emblemAssignments :: "EmblemAssignment list"
  activeRegions :: "string list"

record SolverConfig =
  maxBoardSize :: nat
  minUnits :: nat
  maxUnits :: nat
  cfgRequiredUnits :: "string list option"
  cfgExcludedUnits :: "string list option"

record SolverResult =
  composition :: TeamComposition
  unitCount :: nat
  regionCount :: nat
  totalCost :: "int option"

section \<open>Combination generator (solver.ts, generateCombinations)\<close>

text \<open>
  The generator is modelled by the list of the subsets it yields, in the order it yields
  them. \<open>backtrack\<close> is the inner generator: it threads the shared counter \<open>count\<close> and
  the shared array \<open>current\<close>, and returns the yielded subsets with the new counter.
  \<open>backtrack_for\<close> is the \<^verbatim>\<open>for (let i = start; i < items.length && count < maxResults; i++)\<close>
  loop of its body. The budget is a JavaScript number and may be zero or negative.
\<close>

function backtrack :: "'a list \<Rightarrow> nat \<Rightarrow> int \<Rightarrow> 'a list \<Rightarrow> nat \<Rightarrow> nat \<Rightarrow> 'a list list \<times> nat"
  and backtrack_for :: "'a list \<Rightarrow> nat \<Rightarrow> int \<Rightarrow> 'a list \<Rightarrow> nat \<Rightarrow> nat \<Rightarrow> 'a list list \<times> nat"
  where
  "backtrack items sz maxResults current start count =
     (if int count \<ge> maxResults then ([], count)
      else if length current = sz then ([current], count + 1)
      else if int (length items) - int start < int sz - int (length current) then ([], count)
      else backtrack_for items sz maxResults current start count)"
| "backtrack_for items sz maxResults current i count =
     (if i < length items \<and> int count < maxResults then
        (case backtrack items sz maxResults (current @ [items ! i]) (i + 1) count of
           (out1, count1) \<Rightarrow>
             (case backtrack_for items sz maxResults current (i + 1) count1 of
                (out2, count2) \<Rightarrow> (out1 @ out2, count2)))
      else ([], count))"
  by pat_completeness auto
termination
  by (relation "measure (\<lambda>x. case x of
          Inl (items, sz, maxResults, current, start, count) \<Rightarrow> 2 * (length items - start) + 2
        | Inr (items, sz, maxResults, current, i, count) \<Rightarrow> 2 * (length items - i) + 1)")
     auto

declare backtrack.simps [simp del] backtrack_for.simps [simp del]

definition generateCombinations :: "'a list \<Rightarrow> nat \<Rightarrow> int \<Rightarrow> 'a list list" where
  "generateCombinations items sz maxResults =
     (if sz = 0 then [[]]
      else if sz > length items then []
      else if sz = length items then [items]
      else fst (backtrack items sz maxResults [] 0 0))"

section \<open>Catalog accessor (data.ts)\<close>

text \<open>
  The catalog (\<^verbatim>\<open>units\<close>, \<^verbatim>\<open>regions\<close>) is loaded from JSON files that are data, not
  code; every function below takes it as a parameter.
\<close>

definition getRegionById :: "Region list \<Rightarrow> string \<Rightarrow> Region option" where
  "getRegionById regs i = find (\<lambda>r. rid r = i) regs"

text \<open>\<^verbatim>\<open>region.requiredUnits || 1\<close>: an absent value and 0 are both falsy.\<close>

definition requiredOf :: "Region \<Rightarrow> nat" where
  "requiredOf r = (case requiredUnits r of None \<Rightarrow> 1 | Some n \<Rightarrow> if n = 0 then 1 else n)"

text \<open>\<^verbatim>\<open>getRegionById(e)?.requiredUnits || 1\<close>\<close>

definition requiredOrOne :: "Region option \<Rightarrow> nat" where
  "requiredOrOne r = (case r of None \<Rightarrow> 1 | Some g \<Rightarrow> requiredOf g)"

section \<open>Composition validator (solver.ts, countRegionUnits and isValidComposition)\<close>

text \<open>
  A JavaScript \<^verbatim>\<open>Map\<close> iterates in insertion order and \<^verbatim>\<open>set\<close> on a present key keeps
  the key's position, so the region counters are an association list with unique keys.
\<close>

definition mapGet0 :: "(string \<times> nat) list \<Rightarrow> string \<Rightarrow> nat" where
  "mapGet0 m k = (case map_of m k of None \<Rightarrow> 0 | Some c \<Rightarrow> c)"

fun mapSet :: "(string \<times> nat) list \<Rightarrow> string \<Rightarrow> nat \<Rightarrow> (string \<times> nat) list" where
  "mapSet [] k v = [(k, v)]"
| "mapSet ((k', v') # m) k v = (if k' = k then (k, v) # m else (k', v') # mapSet m k v)"

definition bump :: "(string \<times> nat) list \<Rightarrow> string \<Rightarrow> (string \<times> nat) list" where
  "bump m k = mapSet m k (mapGet0 m k + 1)"

definition countRegionUnits :: "Unit list \<Rightarrow> (string \<times> nat) list" where
  "countRegionUnits us = foldl (\<lambda>m u. foldl bump m (regions u)) [] us"

text \<open>\<^verbatim>\<open>Set.add\<close> on an insertion-ordered set.\<close>

definition setAdd :: "string list \<Rightarrow> string \<Rightarrow> string list" where
  "setAdd s x = (if x \<in> set s then s else s @ [x])"

record Validation =
  valid :: bool
  vActiveRegions :: "string list"
  vEmblemAssignments :: "EmblemAssignment list"

definition isValidComposition :: "Region list \<Rightarrow> Unit list \<Rightarrow> string \<Rightarrow> string \<Rightarrow> Validation" where
  "isValidComposition regs teamUnits emblem1 emblem2 =
     (let regionCounts = countRegionUnits teamUnits in
      case find (\<lambda>u. emblem1 \<notin> set (regions u)) teamUnits of
        None \<Rightarrow> \<lparr>valid = False, vActiveRegions = [], vEmblemAssignments = []\<rparr>
      | Some unitForEmblem1 \<Rightarrow>
          let assign1 = [\<lparr>unitId = uid unitForEmblem1, region = emblem1\<rparr>];
              regionCounts1 = bump regionCounts emblem1
          in case find (\<lambda>u. emblem2 \<notin> set (regions u)) teamUnits of
               None \<Rightarrow> \<lparr>valid = False, vActiveRegions = [], vEmblemAssignments = []\<rparr>
             | Some unitForEmblem2 \<Rightarrow>
                 let assign2 = assign1 @ [\<lparr>unitId = uid unitForEmblem2, region = emblem2\<rparr>];
                     regionCounts2 = bump regionCounts1 emblem2;
                     allRegionsToCheck = setAdd (setAdd (map fst regionCounts2) emblem1) emblem2;
                     active = filter (\<lambda>regionId.
                                case getRegionById regs regionId of
                                  None \<Rightarrow> False
                                | Some reg \<Rightarrow> mapGet0 regionCounts2 regionId \<ge> requiredOf reg)
                              allRegionsToCheck
                 in if length active < 4
                    then \<lparr>valid = False, vActiveRegions = active, vEmblemAssignments = []\<rparr>
                    else \<lparr>valid = True, vActiveRegions = active, vEmblemAssignments = assign2\<rparr>)"

section \<open>Candidate pool (solver.ts, filterUnits)\<close>

text \<open>
  \<^verbatim>\<open>Array.prototype.sort\<close> is a stable sort; with a comparator that is a total preorder
  its result is the one of any stable sort, here insertion from the right.
\<close>

fun insertBy :: "('a \<Rightarrow> 'a \<Rightarrow> int) \<Rightarrow> 'a \<Rightarrow> 'a list \<Rightarrow> 'a list" where
  "insertBy cmp x [] = [x]"
| "insertBy cmp x (y # ys) = (if cmp x y \<le> 0 then x # y # ys else y # insertBy cmp x ys)"

definition sortBy :: "('a \<Rightarrow> 'a \<Rightarrow> int) \<Rightarrow> 'a list \<Rightarrow> 'a list" where
  "sortBy cmp xs = foldr (insertBy cmp) xs []"

definition unlockRank :: "Unit \<Rightarrow> int" where
  "unlockRank u = (if unlockable u then 1 else 0)"

definition filterUnits :: "Unit list \<Rightarrow> SolverConfig \<Rightarrow> Unit list" where
  "filterUnits us config =
     (let filtered1 = (case cfgRequiredUnits config of
                         Some req \<Rightarrow> if length req > 0 then filter (\<lambda>u. uid u \<in> set req) us else us
                       | None \<Rightarrow> us);
          filtered2 = (case cfgExcludedUnits config of
                         Some ex \<Rightarrow> if length ex > 0 then filter (\<lambda>u. uid u \<notin> set ex) filtered1
                                    else filtered1
                       | None \<Rightarrow> filtered1)
      in sortBy (\<lambda>a b. unlockRank a - unlockRank b) filtered2)"

section \<open>Seeded search orchestrator (solver.ts, solveWorldRunes)\<close>

subsection \<open>Helpers local to solveWorldRunes\<close>

fun uniqueFrom :: "string set \<Rightarrow> Unit list \<Rightarrow> Unit list" where
  "uniqueFrom seen [] = []"
| "uniqueFrom seen (u # us) =
     (if uid u \<in> seen then uniqueFrom seen us else u # uniqueFrom (insert (uid u) seen) us)"

definition uniqueUnits :: "Unit list \<Rightarrow> Unit list" where
  "uniqueUnits arr = uniqueFrom {} arr"

definition MAX_TOTAL_RESULTS :: int where
  "MAX_TOTAL_RESULTS = 2000"

definition getMaxCombinationsForSize :: "nat \<Rightarrow> nat \<Rightarrow> int" where
  "getMaxCombinationsForSize sz unitCnt =
     (if sz \<le> 2 then 10000
      else if sz \<le> 3 then 5000
      else if sz \<le> 4 then 2000
      else if sz \<le> 5 then 50000
      else if sz \<le> 6 then 20000
      else if sz \<le> 7 then 5000
      else 2000)"

text \<open>\<^verbatim>\<open>Array.prototype.join\<close>\<close>

fun join :: "string \<Rightarrow> string list \<Rightarrow> string" where
  "join sep [] = []"
| "join sep [x] = x"
| "join sep (x # y # ys) = x @ sep @ join sep (y # ys)"

text \<open>
  \<^verbatim>\<open>teamUnits.map(u => u.id).sort().join(',')\<close>: the default sort compares strings by
  code unit, the lexicographic order of \<open>string\<close>.
\<close>

definition compositionKey :: "Unit list \<Rightarrow> string" where
  "compositionKey team = join '','' (sort (map uid team))"

subsection \<open>Search state\<close>

text \<open>
  The mutable locals of \<^verbatim>\<open>solveWorldRunes\<close>: \<open>results\<close>, \<open>seenCompositions\<close> and the
  per-size \<open>checkedCount\<close>. Three observation fields record what the code does without
  influencing it: \<open>validated\<close> lists the teams handed to \<open>isValidComposition\<close> by the
  smart phase, in call order; \<open>smartAccepted\<close> counts the results pushed by the smart phase;
  \<open>bruteSizes\<close> lists the sizes at which the brute-force generator was created. The logging
  counters \<^verbatim>\<open>validCount\<close> and \<^verbatim>\<open>invalidCount\<close> only feed \<^verbatim>\<open>console.log\<close> and are left out.
\<close>

record SearchState =
  results :: "SolverResult list"
  seenCompositions :: "string set"
  checkedCount :: int
  validated :: "Unit list list"
  smartAccepted :: nat
  bruteSizes :: "nat list"

text \<open>The variables the loops close over.\<close>

record Env =
  envRegions :: "Region list"
  filteredUnits :: "Unit list"
  emblem1 :: string
  emblem2 :: string
  teamSize :: nat
  maxForSize :: int

definition mkResult :: "Unit list \<Rightarrow> Validation \<Rightarrow> int option \<Rightarrow> SolverResult" where
  "mkResult team v tc =
     \<lparr>composition = \<lparr>units = team, emblemAssignments = vEmblemAssignments v,
                      activeRegions = vActiveRegions v\<rparr>,
      unitCount = length team,
      regionCount = length (vActiveRegions v),
      totalCost = tc\<rparr>"

subsection \<open>Smart phase\<close>

text \<open>The quick pre-checks of the Piltover and Yordle blocks; \<open>True\<close> is \<^verbatim>\<open>continue\<close>.\<close>

definition prefilterRejects :: "Env \<Rightarrow> Unit list \<Rightarrow> bool" where
  "prefilterRejects env team =
     (let r1Req = requiredOrOne (getRegionById (envRegions env) (emblem1 env));
          r2Req = requiredOrOne (getRegionById (envRegions env) (emblem2 env));
          r1Count = length (filter (\<lambda>u. emblem1 env \<in> set (regions u)) team);
          r2Count = length (filter (\<lambda>u. emblem2 env \<in> set (regions u)) team)
      in if r1Count + 1 < r1Req \<or> r2Count + 1 < r2Req then True
         else find (\<lambda>u. emblem1 env \<notin> set (regions u)) team = None
              \<or> find (\<lambda>u. emblem2 env \<notin> set (regions u)) team = None)"

text \<open>
  The smart phase's push: no \<^verbatim>\<open>totalCost\<close> property is written, and the length of
  \<open>results\<close> is not compared with the cap.
\<close>

definition smartAccept :: "Unit list \<Rightarrow> Validation \<Rightarrow> SearchState \<Rightarrow> SearchState" where
  "smartAccept team v st =
     (let compKey = compositionKey team in
      if compKey \<in> seenCompositions st then st
      else st\<lparr>seenCompositions := insert compKey (seenCompositions st),
              results := results st @ [mkResult team v None],
              smartAccepted := smartAccepted st + 1\<rparr>)"

text \<open>
  One candidate of the smart phase, from \<^verbatim>\<open>checkedCount++\<close> on. \<open>pre\<close> tells whether the
  block has the quick pre-checks (Piltover, Yordle) or not (Shadow Isles, Void).
\<close>

definition smartCheck :: "Env \<Rightarrow> bool \<Rightarrow> Unit list \<Rightarrow> SearchState \<Rightarrow> SearchState" where
  "smartCheck env pre team st =
     (let st1 = st\<lparr>checkedCount := checkedCount st + 1\<rparr> in
      if pre \<and> prefilterRejects env team then st1
      else
        let v = isValidComposition (envRegions env) team (emblem1 env) (emblem2 env);
            st2 = st1\<lparr>validated := validated st1 @ [team]\<rparr>
        in if valid v then smartAccept team v st2 else st2)"

text \<open>
  \<^verbatim>\<open>for (const x of xs) { if (checkedCount >= maxForSize) break; body }\<close>. The pair loops
  end their body with the same test; it is the test the next iteration starts with, and
  the one that follows the loop, so a \<^verbatim>\<open>continue\<close> that skips it changes nothing.
\<close>

fun forBudgetTop :: "int \<Rightarrow> ('a \<Rightarrow> SearchState \<Rightarrow> SearchState) \<Rightarrow> 'a list \<Rightarrow> SearchState \<Rightarrow> SearchState" where
  "forBudgetTop mx body [] st = st"
| "forBudgetTop mx body (x # xs) st =
     (if checkedCount st \<ge> mx then st else forBudgetTop mx body xs (body x st))"

text \<open>\<^verbatim>\<open>for (const x of xs) { body; if (checkedCount >= maxForSize) break; }\<close>\<close>

fun forBudgetEnd :: "int \<Rightarrow> ('a \<Rightarrow> SearchState \<Rightarrow> SearchState) \<Rightarrow> 'a list \<Rightarrow> SearchState \<Rightarrow> SearchState" where
  "forBudgetEnd mx body [] st = st"
| "forBudgetEnd mx body (x # xs) st =
     (let st1 = body x st in if checkedCount st1 \<ge> mx then st1 else forBudgetEnd mx body xs st1)"

text \<open>
  The body of one pair loop. \<open>dedup\<close> tells whether the block passes its team through
  \<open>uniqueUnits\<close> (Piltover, Yordle, Shadow Isles) or not (Void).
\<close>

definition tryPair :: "Env \<Rightarrow> bool \<Rightarrow> bool \<Rightarrow> Unit list \<Rightarrow> Unit list \<Rightarrow> Unit \<Rightarrow> Unit list
                         \<Rightarrow> SearchState \<Rightarrow> SearchState" where
  "tryPair env dedup pre e1Group e2Group targonUnit pair st =
     (let base = e1Group @ e2Group @ [targonUnit] @ pair;
          usedUnitIds = set (map uid base);
          teamUnits = (if dedup then uniqueUnits base else base)
      in if length teamUnits = teamSize env then smartCheck env pre teamUnits st
         else if length teamUnits < teamSize env then
           let remainingUnits = filter (\<lambda>u. uid u \<notin> usedUnitIds) (filteredUnits env);
               remainingSlots = teamSize env - length teamUnits;
               fillCombos = generateCombinations remainingUnits remainingSlots 50
           in forBudgetTop (maxForSize env)
                (\<lambda>fillUnits. smartCheck env pre
                   (if dedup then uniqueUnits (teamUnits @ fillUnits) else teamUnits @ fillUnits))
                fillCombos st
         else st)"

definition unitsOf :: "Env \<Rightarrow> string \<Rightarrow> Unit list" where
  "unitsOf env r = filter (\<lambda>u. r \<in> set (regions u)) (filteredUnits env)"

definition tryTargon :: "Env \<Rightarrow> Unit list \<Rightarrow> Unit list \<Rightarrow> Unit \<Rightarrow> SearchState \<Rightarrow> SearchState" where
  "tryTargon env e1Group e2Group targonUnit st =
     (let piltoverPairs = generateCombinations (unitsOf env ''piltover'') 2 20;
          yordlePairs = generateCombinations (unitsOf env ''yordle'') 2 20;
          shadowIslesPairs = generateCombinations (unitsOf env ''shadow-isles'') 2 20;
          voidPairs = generateCombinations (unitsOf env ''void'') 2 20;
          st1 = forBudgetTop (maxForSize env) (tryPair env True True e1Group e2Group targonUnit)
                  (take 10 piltoverPairs) st;
          st2 = forBudgetTop (maxForSize env) (tryPair env True True e1Group e2Group targonUnit)
                  (take 10 yordlePairs) st1;
          st3 = forBudgetTop (maxForSize env) (tryPair env True False e1Group e2Group targonUnit)
                  (take 10 shadowIslesPairs) st2
      in forBudgetTop (maxForSize env) (tryPair env False False e1Group e2Group targonUnit)
           (take 10 voidPairs) st3)"

definition smartPhase :: "Env \<Rightarrow> SearchState \<Rightarrow> SearchState" where
  "smartPhase env st =
     (let emblem1Units = unitsOf env (emblem1 env);
          emblem2Units = unitsOf env (emblem2 env);
          targonUnits = unitsOf env ''targon'';
          req1 = requiredOrOne (getRegionById (envRegions env) (emblem1 env));
          req2 = requiredOrOne (getRegionById (envRegions env) (emblem2 env));
          need1 = req1 - 1;
          need2 = req2 - 1
      in if teamSize env \<ge> 5 \<and> length emblem1Units \<ge> need1 \<and> length emblem2Units \<ge> need2
            \<and> length targonUnits \<ge> 1
         then
           let emblem1Groups = (if need1 > 0 then generateCombinations emblem1Units need1 80 else [[]]);
               emblem2Groups = (if need2 > 0 then generateCombinations emblem2Units need2 80 else [[]]);
               targonOptions = take 10 targonUnits
           in forBudgetEnd (maxForSize env)
                (\<lambda>e1Group.
                   forBudgetEnd (maxForSize env)
                     (\<lambda>e2Group. forBudgetEnd (maxForSize env) (tryTargon env e1Group e2Group) targonOptions)
                     (take 60 emblem2Groups))
                (take 60 emblem1Groups) st
         else st)"

subsection \<open>Brute-force phase\<close>

definition bruteAccept :: "Unit list \<Rightarrow> Validation \<Rightarrow> SearchState \<Rightarrow> SearchState" where
  "bruteAccept team v st =
     (let compKey = compositionKey team in
      if compKey \<in> seenCompositions st then st
      else st\<lparr>seenCompositions := insert compKey (seenCompositions st),
              results := results st @ [mkResult team v (Some (foldl (\<lambda>sum u. sum + cost u) 0 team))]\<rparr>)"

fun bruteLoop :: "Env \<Rightarrow> Unit list list \<Rightarrow> SearchState \<Rightarrow> SearchState" where
  "bruteLoop env [] st = st"
| "bruteLoop env (teamUnits # rest) st =
     (let st1 = st\<lparr>checkedCount := checkedCount st + 1\<rparr> in
      if int (length (results st1)) \<ge> MAX_TOTAL_RESULTS then st1
      else if checkedCount st1 > maxForSize env then st1
      else
        let v = isValidComposition (envRegions env) teamUnits (emblem1 env) (emblem2 env)
        in bruteLoop env rest (if valid v then bruteAccept teamUnits v st1 else st1))"

definition brutePhase :: "Env \<Rightarrow> SearchState \<Rightarrow> SearchState" where
  "brutePhase env st =
     (if length (results st) < 10 then
        bruteLoop env
          (generateCombinations (filteredUnits env) (teamSize env)
             (maxForSize env - checkedCount st))
          (st\<lparr>bruteSizes := bruteSizes st @ [teamSize env]\<rparr>)
      else st)"

subsection \<open>The loop over team sizes and the final sort\<close>

definition mkEnv :: "Region list \<Rightarrow> Unit list \<Rightarrow> string \<Rightarrow> string \<Rightarrow> nat \<Rightarrow> Env" where
  "mkEnv regs pool e1 e2 sz =
     \<lparr>envRegions = regs, filteredUnits = pool, emblem1 = e1, emblem2 = e2, teamSize = sz,
      maxForSize = getMaxCombinationsForSize sz (length pool)\<rparr>"

text \<open>One iteration of the size loop, after its cap test.\<close>

definition sizeStep :: "Region list \<Rightarrow> Unit list \<Rightarrow> string \<Rightarrow> string \<Rightarrow> nat \<Rightarrow> SearchState \<Rightarrow> SearchState" where
  "sizeStep regs pool e1 e2 sz st =
     (let env = mkEnv regs pool e1 e2 sz
      in brutePhase env (smartPhase env (st\<lparr>checkedCount := 0\<rparr>)))"

fun sizeLoop :: "Region list \<Rightarrow> Unit list \<Rightarrow> string \<Rightarrow> string \<Rightarrow> nat list \<Rightarrow> SearchState \<Rightarrow> SearchState" where
  "sizeLoop regs pool e1 e2 [] st = st"
| "sizeLoop regs pool e1 e2 (sz # rest) st =
     (if int (length (results st)) \<ge> MAX_TOTAL_RESULTS then st
      else sizeLoop regs pool e1 e2 rest (sizeStep regs pool e1 e2 sz st))"

definition initState :: SearchState where
  "initState = \<lparr>results = [], seenCompositions = {}, checkedCount = 0, validated = [],
                smartAccepted = 0, bruteSizes = []\<rparr>"

text \<open>The state when the size loop is left, for emblems that resolve.\<close>

definition searchState :: "Unit list \<Rightarrow> Region list \<Rightarrow> string \<Rightarrow> string \<Rightarrow> SolverConfig \<Rightarrow> SearchState" where
  "searchState us regs e1 e2 config =
     (let pool = filterUnits us config;
          effectiveMaxUnits = min (min (maxUnits config) (maxBoardSize config)) (length pool)
      in sizeLoop regs pool e1 e2 [minUnits config ..< effectiveMaxUnits + 1] initState)"

definition compareResults :: "SolverResult \<Rightarrow> SolverResult \<Rightarrow> int" where
  "compareResults a b =
     (if unitCount a \<noteq> unitCount b then int (unitCount a) - int (unitCount b)
      else
        let aCost = (case totalCost a of None \<Rightarrow> 0 | Some c \<Rightarrow> c);
            bCost = (case totalCost b of None \<Rightarrow> 0 | Some c \<Rightarrow> c)
        in if aCost \<noteq> bCost then aCost - bCost
           else int (regionCount b) - int (regionCount a))"

definition solveWorldRunes :: "Unit list \<Rightarrow> Region list \<Rightarrow> string \<Rightarrow> string \<Rightarrow> SolverConfig \<Rightarrow> SolverResult list" where
  "solveWorldRunes us regs e1 e2 config =
     (if e1 = [] \<or> e2 = [] then []
      else if getRegionById regs e1 = None \<or> getRegionById regs e2 = None then []
      else sortBy compareResults (results (searchState us regs e1 e2 config)))"

section \<open>Unlock filter and suggestions (ResultsDisplay.tsx, lines 27 to 73)\<close>

text \<open>
  The component returns its empty view before this code when \<open>results\<close> is empty. The
  functions below are the values the code computes for a non-empty \<open>results\<close>; they are
  named after the variables that hold them.
\<close>

definition isLocked :: "string set \<Rightarrow> Unit \<Rightarrow> bool" where
  "isLocked unlockedSet u = (unlockable u \<and> uid u \<notin> unlockedSet)"

definition targonSet :: "string set" where
  "targonSet = {''aphelios'', ''leona'', ''zoe'', ''taric''}"

definition normalizeId :: "string \<Rightarrow> string" where
  "normalizeId i = (if i \<in> targonSet then ''targon-1of4'' else i)"

definition unitSignature :: "SolverResult \<Rightarrow> string" where
  "unitSignature r = join ''|'' (sort (map (\<lambda>u. normalizeId (uid u)) (units (composition r))))"

text \<open>The \<^verbatim>\<open>dedupMap\<close> loop: the first result of each signature is kept, in insertion order.\<close>

fun dedupLoop :: "(string \<times> SolverResult) list \<Rightarrow> SolverResult list \<Rightarrow> (string \<times> SolverResult) list" where
  "dedupLoop dedupMap [] = dedupMap"
| "dedupLoop dedupMap (r # rs) =
     (let sig = unitSignature r in
      if sig \<in> set (map fst dedupMap) then dedupLoop dedupMap rs
      else dedupLoop (dedupMap @ [(sig, r)]) rs)"

definition filtered :: "SolverResult list \<Rightarrow> string list \<Rightarrow> SolverResult list" where
  "filtered rs unlockedIds =
     (let unlockedSet = set unlockedIds;
          kept = filter (\<lambda>r. \<not> list_ex (isLocked unlockedSet) (units (composition r))) rs
      in map snd (dedupLoop [] kept))"

text \<open>\<^verbatim>\<open>xs.length ? Math.min(...xs.map(r => r.unitCount)) : 0\<close>\<close>

definition minUnitCount :: "SolverResult list \<Rightarrow> nat" where
  "minUnitCount rs = (case rs of [] \<Rightarrow> 0 | r # rest \<Rightarrow> foldl min (unitCount r) (map unitCount rest))"

definition minimalAll :: "SolverResult list \<Rightarrow> nat" where
  "minimalAll rs = minUnitCount rs"

definition minimalFiltered :: "SolverResult list \<Rightarrow> string list \<Rightarrow> nat" where
  "minimalFiltered rs unlockedIds = minUnitCount (filtered rs unlockedIds)"

definition filteredHasHigherMin :: "SolverResult list \<Rightarrow> string list \<Rightarrow> bool" where
  "filteredHasHigherMin rs unlockedIds = (minimalFiltered rs unlockedIds > minimalAll rs)"

definition lockedCount :: "string set \<Rightarrow> SolverResult \<Rightarrow> nat" where
  "lockedCount unlockedSet r = length (filter (isLocked unlockedSet) (units (composition r)))"

definition unlockSuggestions :: "SolverResult list \<Rightarrow> string list \<Rightarrow> Unit list" where
  "unlockSuggestions rs unlockedIds =
     (let unlockedSet = set unlockedIds;
          minimalAllResults = filter (\<lambda>r. unitCount r = minimalAll rs) rs
      in if filteredHasHigherMin rs unlockedIds \<and> length minimalAllResults > 0 then
           (case sortBy (\<lambda>a b. int (lockedCount unlockedSet a) - int (lockedCount unlockedSet b))
                   minimalAllResults of
              [] \<Rightarrow> []
            | bestForUnlocks # _ \<Rightarrow>
                uniqueFrom {} (filter (isLocked unlockedSet) (units (composition bestForUnlocks))))
         else [])"

section \<open>The generator against the lexicographic enumeration of index tuples\<close>

text \<open>
  \<open>combos k xs\<close>: the \<open>k\<close>-element sublists of \<open>xs\<close>, first those that contain the head.
  On a list of indices this is the lexicographic order of the index tuples.
\<close>

fun combos :: "nat \<Rightarrow> 'a list \<Rightarrow> 'a list list" where
  "combos 0 xs = [[]]"
| "combos (Suc k) [] = []"
| "combos (Suc k) (x # xs) = map ((#) x) (combos k xs) @ combos (Suc k) xs"

text \<open>The index tuples the generator walks through on a list of length \<open>n\<close>.\<close>

definition indexTuples :: "nat \<Rightarrow> nat \<Rightarrow> int \<Rightarrow> nat list list" where
  "indexTuples n k maxResults = generateCombinations [0..<n] k maxResults"

section \<open>Predicates used in the proofs\<close>

text \<open>
  A result with at least four stored active regions and its two carriers named, and a
  state all of whose results are such.
\<close>

definition goodResult :: "string \<Rightarrow> string \<Rightarrow> SolverResult \<Rightarrow> bool" where
  "goodResult e1 e2 r =
     (4 \<le> length (activeRegions (composition r))
      \<and> (\<exists>u1 \<in> set (units (composition r)). \<exists>u2 \<in> set (units (composition r)).
            e1 \<notin> set (regions u1) \<and> e2 \<notin> set (regions u2)
            \<and> emblemAssignments (composition r)
                = [\<lparr>unitId = uid u1, region = e1\<rparr>, \<lparr>unitId = uid u2, region = e2\<rparr>]))"

definition resultsGood :: "string \<Rightarrow> string \<Rightarrow> SearchState \<Rightarrow> bool" where
  "resultsGood e1 e2 st = (\<forall>r \<in> set (results st). goodResult e1 e2 r)"

section \<open>Sample catalogs\<close>

text \<open>Small catalogs on which the definitions are evaluated.\<close>

definition sampleRegions :: "Region list" where
  "sampleRegions =
     [\<lparr>rid = ''targon'', rname = ''Targon'', requiredUnits = Some 1\<rparr>,
      \<lparr>rid = ''piltover'', rname = ''Piltover'', requiredUnits = Some 2\<rparr>,
      \<lparr>rid = ''shadow-isles'', rname = ''Shadow Isles'', requiredUnits = Some 2\<rparr>,
      \<lparr>rid = ''void'', rname = ''Void'', requiredUnits = Some 2\<rparr>,
      \<lparr>rid = ''ionia'', rname = ''Ionia'', requiredUnits = Some 1\<rparr>,
      \<lparr>rid = ''noxus'', rname = ''Noxus'', requiredUnits = Some 1\<rparr>,
      \<lparr>rid = ''demacia'', rname = ''Demacia'', requiredUnits = Some 1\<rparr>,
      \<lparr>rid = ''zaun'', rname = ''Zaun'', requiredUnits = Some 1\<rparr>]"


definition sampleConfig :: "nat \<Rightarrow> nat \<Rightarrow> SolverConfig" where
  "sampleConfig lo hi =
     \<lparr>maxBoardSize = 9, minUnits = lo, maxUnits = hi, cfgRequiredUnits = None,
      cfgExcludedUnits = None\<rparr>"

text \<open>One Targon unit, a Piltover pair and two units of a region outside the catalog's active set.\<close>

definition piltoverUnits :: "Unit list" where
  "piltoverUnits =
     [\<lparr>uid = ''t1'', name = ''T1'', cost = 3, regions = [''targon''], unlockable = False\<rparr>,
      \<lparr>uid = ''p1'', name = ''P1'', cost = 1, regions = [''piltover''], unlockable = False\<rparr>,
      \<lparr>uid = ''p2'', name = ''P2'', cost = 1, regions = [''piltover''], unlockable = False\<rparr>,
      \<lparr>uid = ''f1'', name = ''F1'', cost = 1, regions = [''freljord''], unlockable = False\<rparr>,
      \<lparr>uid = ''f2'', name = ''F2'', cost = 2, regions = [''freljord''], unlockable = False\<rparr>]"

text \<open>The Targon unit is also a Void unit, so the Void pair contains it.\<close>

definition voidUnits :: "Unit list" where
  "voidUnits =
     [\<lparr>uid = ''t1'', name = ''T1'', cost = 3, regions = [''targon'', ''void''], unlockable = False\<rparr>,
      \<lparr>uid = ''v2'', name = ''V2'', cost = 1, regions = [''void''], unlockable = False\<rparr>,
      \<lparr>uid = ''f1'', name = ''F1'', cost = 1, regions = [''freljord''], unlockable = False\<rparr>,
      \<lparr>uid = ''f2'', name = ''F2'', cost = 2, regions = [''freljord''], unlockable = False\<rparr>,
      \<lparr>uid = ''f3'', name = ''F3'', cost = 2, regions = [''freljord''], unlockable = False\<rparr>]"

text \<open>Every unit carries Targon; two of them form the Shadow Isles pair.\<close>

definition shadowUnits :: "Unit list" where
  "shadowUnits =
     [\<lparr>uid = ''t1'', name = ''T1'', cost = 3, regions = [''targon''], unlockable = False\<rparr>,
      \<lparr>uid = ''s1'', name = ''S1'', cost = 1, regions = [''targon'', ''shadow-isles''], unlockable = False\<rparr>,
      \<lparr>uid = ''s2'', name = ''S2'', cost = 1, regions = [''targon'', ''shadow-isles''], unlockable = False\<rparr>,
      \<lparr>uid = ''f1'', name = ''F1'', cost = 1, regions = [''targon''], unlockable = False\<rparr>,
      \<lparr>uid = ''f2'', name = ''F2'', cost = 2, regions = [''targon''], unlockable = False\<rparr>]"

text \<open>No Targon unit; every unit carries Demacia and Zaun.\<close>

definition plainUnits :: "Unit list" where
  "plainUnits =
     [\<lparr>uid = ''a'', name = ''A'', cost = 1, regions = [''demacia'', ''zaun''], unlockable = False\<rparr>,
      \<lparr>uid = ''b'', name = ''B'', cost = 1, regions = [''demacia'', ''zaun''], unlockable = False\<rparr>,
      \<lparr>uid = ''c'', name = ''C'', cost = 1, regions = [''demacia'', ''zaun''], unlockable = False\<rparr>,
      \<lparr>uid = ''d'', name = ''D'', cost = 1, regions = [''demacia'', ''zaun''], unlockable = False\<rparr>,
      \<lparr>uid = ''e'', name = ''E'', cost = 1, regions = [''demacia'', ''zaun''], unlockable = False\<rparr>]"

definition piltoverResult :: SolverResult where
  "piltoverResult =
     \<lparr>composition =
        \<lparr>units = piltoverUnits,
         emblemAssignments = [\<lparr>unitId = ''t1'', region = ''ionia''\<rparr>,
                              \<lparr>unitId = ''t1'', region = ''noxus''\<rparr>],
         activeRegions = [''targon'', ''piltover'', ''ionia'', ''noxus'']\<rparr>,
      unitCount = 5, regionCount = 4, totalCost = None\<rparr>"

text \<open>A four-unit result that contains the unlockable unit \<open>ryze\<close>.\<close>

definition lockedResult :: SolverResult where
  "lockedResult =
     \<lparr>composition =
        \<lparr>units =
           [\<lparr>uid = ''t1'', name = ''T1'', cost = 3, regions = [''targon''], unlockable = False\<rparr>,
            \<lparr>uid = ''p1'', name = ''P1'', cost = 1, regions = [''piltover''], unlockable = False\<rparr>,
            \<lparr>uid = ''p2'', name = ''P2'', cost = 1, regions = [''piltover''], unlockable = False\<rparr>,
            \<lparr>uid = ''ryze'', name = ''Ryze'', cost = 4, regions = [''void'', ''demacia''],
             unlockable = True\<rparr>],
         emblemAssignments = [\<lparr>unitId = ''t1'', region = ''ionia''\<rparr>,
                              \<lparr>unitId = ''t1'', region = ''noxus''\<rparr>],
         activeRegions = [''targon'', ''piltover'', ''demacia'', ''ionia'', ''noxus'']\<rparr>,
      unitCount = 4, regionCount = 5, totalCost = Some 9\<rparr>"

text \<open>A state whose result list is as long as the cap.\<close>

definition cappedState :: SearchState where
  "cappedState = initState\<lparr>results := replicate 2000 lockedResult\<rparr>"

section \<open>Properties of the combination generator\<close>

lemma combos_short: "length xs < k \<Longrightarrow> combos k xs = []"
  by (induction k xs rule: combos.induct) auto

lemma combos_full: "combos (length xs) xs = [xs]"
  by (induction xs) (auto simp: combos_short)

lemma length_combos: "length (combos k xs) = length xs choose k"
  by (induction k xs rule: combos.induct) auto

lemma backtrack_combos:
  "length cur \<le> k \<Longrightarrow> start \<le> length items \<Longrightarrow>
     backtrack items k mx cur start cnt =
       (map ((@) cur) (take (nat (mx - int cnt)) (combos (k - length cur) (drop start items))),
        cnt + min (nat (mx - int cnt)) (length (combos (k - length cur) (drop start items))))"
  "length cur < k \<Longrightarrow> i \<le> length items \<Longrightarrow>
     backtrack_for items k mx cur i cnt =
       (map ((@) cur) (take (nat (mx - int cnt)) (combos (k - length cur) (drop i items))),
        cnt + min (nat (mx - int cnt)) (length (combos (k - length cur) (drop i items))))"
proof (induction items k mx cur start cnt and items k mx cur i cnt rule: backtrack_backtrack_for.induct)
  case (1 items sz maxResults current start count)
  show ?case
  proof (cases "int count \<ge> maxResults")
    case True
    then show ?thesis by (subst backtrack.simps) simp
  next
    case nb: False
    show ?thesis
    proof (cases "length current = sz")
      case True
      from nb have "nat (maxResults - int count) \<ge> 1" by linarith
      then have "take (nat (maxResults - int count)) [[]::'a list] = [[]]"
        and "min (nat (maxResults - int count)) (Suc 0) = 1"
        by (cases "nat (maxResults - int count)"; simp)+
      with nb True show ?thesis by (subst backtrack.simps) simp
    next
      case ne: False
      with 1(2) have lt: "length current < sz" by simp
      show ?thesis
      proof (cases "int (length items) - int start < int sz - int (length current)")
        case True
        with lt 1(3) have "length (drop start items) < sz - length current" by simp
        then have "combos (sz - length current) (drop start items) = []" by (rule combos_short)
        with nb ne True show ?thesis by (subst backtrack.simps) simp
      next
        case False
        have "backtrack items sz maxResults current start count
               = backtrack_for items sz maxResults current start count"
          using nb ne False by (subst backtrack.simps) simp
        also note "1.IH"[OF nb ne False lt 1(3)]
        finally show ?thesis .
      qed
    qed
  qed
next
  case (2 items sz maxResults current i count)
  show ?case
  proof (cases "i < length items \<and> int count < maxResults")
    case False
    then consider "i = length items" | "int count \<ge> maxResults" using 2(4) by linarith
    then show ?thesis
    proof cases
      case 1
      obtain j where j: "sz - length current = Suc j" using 2(3) by (cases "sz - length current") auto
      show ?thesis using 1 j by (subst backtrack_for.simps) simp
    next
      case 2
      then show ?thesis by (subst backtrack_for.simps) simp
    qed
  next
    case True
    obtain j where j: "sz - length current = Suc j" using 2(3) by (cases "sz - length current") auto
    define x where "x = items ! i"
    define rest where "rest = drop (i + 1) items"
    have dr: "drop i items = x # rest" using True by (simp add: x_def rest_def Cons_nth_drop_Suc)
    define m where "m = nat (maxResults - int count)"
    define A where "A = combos j rest"
    define B where "B = combos (Suc j) rest"
    have l1: "length (current @ [items ! i]) \<le> sz" using 2(3) by simp
    have s1: "i + 1 \<le> length items" using True by simp
    have j': "sz - length (current @ [items ! i]) = j" using j by simp
    have bt: "backtrack items sz maxResults (current @ [items ! i]) (Suc i) count
          = (map ((@) current) (map ((#) x) (take m A)), count + min m (length A))"
      using "2.IH"(1)[OF True l1 s1] unfolding j' by (simp add: m_def A_def rest_def x_def take_map)
    have m': "nat (maxResults - int (count + min m (length A))) = m - length A"
      unfolding m_def min_def by (simp; linarith)
    have bf: "backtrack_for items sz maxResults current (Suc i) (count + min m (length A))
          = (map ((@) current) (take (m - length A) B), count + min m (length A) + min (m - length A) (length B))"
      using "2.IH"(2)[OF True bt[symmetric, unfolded Suc_eq_plus1] 2(3) s1] unfolding j m' by (simp add: B_def rest_def)
    have "backtrack_for items sz maxResults current i count
          = (map ((@) current) (map ((#) x) (take m A)) @ map ((@) current) (take (m - length A) B),
             count + min m (length A) + min (m - length A) (length B))"
      using True by (subst backtrack_for.simps) (simp add: bt bf)
    moreover have "min m (length A) + min (m - length A) (length B) = min m (length A + length B)"
      by linarith
    ultimately show ?thesis unfolding j dr
      by (simp add: m_def[symmetric] A_def[symmetric] B_def[symmetric] take_map add.assoc)
  qed
qed

lemma generateCombinations_combos:
  "generateCombinations items k mx =
     (if k = 0 \<or> length items \<le> k then combos k items else take (nat mx) (combos k items))"
proof -
  have "fst (backtrack items k mx [] 0 0) = take (nat mx) (combos k items)"
    by (simp add: backtrack_combos(1)[of "[]" k 0 items mx 0] map_idI)
  then show ?thesis
    by (auto simp: generateCombinations_def combos_full combos_short)
qed

lemma combos_map: "combos k (map f xs) = map (map f) (combos k xs)"
  by (induction k xs rule: combos.induct) auto

lemma combos_length: "t \<in> set (combos k xs) \<Longrightarrow> length t = k"
  by (induction k xs arbitrary: t rule: combos.induct) auto

lemma combos_subset: "t \<in> set (combos k xs) \<Longrightarrow> set t \<subseteq> set xs"
  by (induction k xs arbitrary: t rule: combos.induct) fastforce+

lemma combos_increasing:
  fixes xs :: "'a::linorder list"
  shows "sorted_wrt (<) xs \<Longrightarrow> t \<in> set (combos k xs) \<Longrightarrow> sorted_wrt (<) t"
proof (induction k xs arbitrary: t rule: combos.induct)
  case (3 k x xs)
  from "3.prems"(2) consider s where "t = x # s" "s \<in> set (combos k xs)" | "t \<in> set (combos (Suc k) xs)"
    by auto
  then show ?case
  proof cases
    case 1
    with "3.prems"(1) "3.IH"(1) combos_subset[OF 1(2)] show ?thesis by auto
  next
    case 2
    with "3.prems"(1) "3.IH"(2) show ?thesis by auto
  qed
qed auto

lemma combos_lex_sorted:
  fixes xs :: "'a::linorder list"
  shows "sorted_wrt (<) xs \<Longrightarrow> sorted_wrt (<) (combos k xs)"
proof (induction k xs rule: combos.induct)
  case (3 k x xs)
  have a: "sorted_wrt (<) (map ((#) x) (combos k xs))"
    using 3 by (simp add: sorted_wrt_map)
  have b: "sorted_wrt (<) (combos (Suc k) xs)" using 3 by simp
  have c: "x # s < t" if t_in: "t \<in> set (combos (Suc k) xs)" for s t
  proof -
    obtain y t' where t: "t = y # t'" using combos_length[OF t_in] by (cases t) auto
    with combos_subset[OF t_in] have "y \<in> set xs" by simp
    with "3.prems" have "x < y" by simp
    then show ?thesis by (simp add: t)
  qed
  show ?case using a b c by (auto simp: sorted_wrt_append)
qed auto

lemma sorted_wrt_take: "sorted_wrt P xs \<Longrightarrow> sorted_wrt P (take m xs)"
  by (metis append_take_drop_id sorted_wrt_append)

lemma indexTuples_combos:
  "indexTuples n k mx = (if k = 0 \<or> n \<le> k then combos k [0..<n] else take (nat mx) (combos k [0..<n]))"
  by (simp add: indexTuples_def generateCombinations_combos)

lemma indexTuples_subset: "set (indexTuples n k mx) \<subseteq> set (combos k [0..<n])"
  by (auto simp: indexTuples_combos dest: in_set_takeD)

lemma sorted_upt_strict: "sorted_wrt (<) [0..<n]"
  by (simp add: sorted_wrt_upt)

lemma strict_sorted_distinct:
  fixes xs :: "'a::order list"
  shows "sorted_wrt (<) xs \<Longrightarrow> distinct xs"
  by (induction xs) auto

text \<open>
  Claim C6, amended. \<open>generateCombinations\<close> reads its subsets off strictly increasing
  index tuples (so each subset has \<open>k\<close> elements in input order); the tuples come in
  strictly increasing lexicographic order, so none is repeated. For \<open>0 < k < n\<close> exactly
  \<open>min maxResults (n choose k)\<close> subsets are yielded, hence at most \<open>maxResults\<close>. The
  short cuts do not look at the budget: \<open>k = 0\<close> yields the empty subset once,
  \<open>k > n\<close> yields nothing and \<open>k = n\<close> yields the whole list once.
\<close>

theorem generateCombinations_enumerates:
  "generateCombinations items k mx = map (map ((!) items)) (indexTuples (length items) k mx)
   \<and> (\<forall>t \<in> set (indexTuples (length items) k mx).
         length t = k \<and> sorted_wrt (<) t \<and> (\<forall>i \<in> set t. i < length items))
   \<and> sorted_wrt (<) (indexTuples (length items) k mx)
   \<and> distinct (indexTuples (length items) k mx)
   \<and> (0 < k \<and> k < length items \<longrightarrow>
         length (generateCombinations items k mx) = min (nat mx) (length items choose k))
   \<and> (k = 0 \<longrightarrow> generateCombinations items k mx = [[]])
   \<and> (k > length items \<longrightarrow> generateCombinations items k mx = [])
   \<and> (k = length items \<longrightarrow> generateCombinations items k mx = [items])"
proof -
  let ?n = "length items"
  have nat: "combos k items = map (map ((!) items)) (combos k [0..<?n])"
    using combos_map[of k "(!) items" "[0..<?n]"] by (simp add: map_nth)
  have p1: "generateCombinations items k mx = map (map ((!) items)) (indexTuples ?n k mx)"
    by (simp add: generateCombinations_combos indexTuples_combos nat take_map)
  have p2: "length t = k \<and> sorted_wrt (<) t \<and> (\<forall>i \<in> set t. i < ?n)"
    if "t \<in> set (indexTuples ?n k mx)" for t
  proof -
    from that indexTuples_subset have t: "t \<in> set (combos k [0..<?n])" by blast
    from combos_subset[OF t] have "\<forall>i \<in> set t. i < ?n" by auto
    with combos_length[OF t] combos_increasing[OF sorted_upt_strict t] show ?thesis by simp
  qed
  have "sorted_wrt (<) (combos k [0..<?n])"
    by (rule combos_lex_sorted[OF sorted_upt_strict])
  then have p3: "sorted_wrt (<) (indexTuples ?n k mx)"
    by (simp add: indexTuples_combos sorted_wrt_take)
  have p4: "distinct (indexTuples ?n k mx)"
    using p3 by (rule strict_sorted_distinct)
  have p5: "0 < k \<and> k < ?n \<longrightarrow>
         length (generateCombinations items k mx) = min (nat mx) (?n choose k)"
    by (simp add: generateCombinations_combos length_combos min.commute)
  have p6: "k = 0 \<longrightarrow> generateCombinations items k mx = [[]]"
    by (simp add: generateCombinations_def)
  have p7: "k > ?n \<longrightarrow> generateCombinations items k mx = []"
    by (simp add: generateCombinations_def)
  have p8: "k = ?n \<longrightarrow> generateCombinations items k mx = [items]"
    by (auto simp: generateCombinations_def)
  from p1 p2 p3 p4 p5 p6 p7 p8 show ?thesis by blast
qed

text \<open>
  Claim C6 as stated fails: with a budget of 0 and \<open>k = n = 1\<close> one subset is yielded.
\<close>

theorem generateCombinations_budget_counterexample:
  "\<not> int (length (generateCombinations ''a'' 1 0)) \<le> 0"
  by (simp add: generateCombinations_def)

theorem generateCombinations_enumerates_witness:
  "(0::nat) < 2 \<and> 2 < length ''abcd''
   \<and> generateCombinations ''abcd'' 2 3 = [''ab'', ''ac'', ''ad'']
   \<and> [0, 2] \<in> set (indexTuples (length ''abcd'') 2 3)
   \<and> length (generateCombinations ''abcd'' 2 3) = min (nat 3) (length ''abcd'' choose 2)"
proof -
  have e: "indexTuples (length ''abcd'') 2 3 = [[0, 1], [0, 2], [0, 3]]"
    by code_simp
  note t = generateCombinations_enumerates[of "''abcd''" 2 3]
  have g: "generateCombinations ''abcd'' 2 3 = map (map ((!) ''abcd'')) [[0, 1], [0, 2], [0, 3]]"
    using t unfolding e by (rule conjunct1)
  have l: "0 < (2::nat) \<and> 2 < length ''abcd'' \<longrightarrow>
      length (generateCombinations ''abcd'' 2 3) = min (nat 3) (length ''abcd'' choose 2)"
    using t by (elim conjE)
  have "generateCombinations ''abcd'' 2 3 = [''ab'', ''ac'', ''ad'']"
    unfolding g by simp
  moreover have "[0, 2] \<in> set (indexTuples (length ''abcd'') 2 3)"
    unfolding e by simp
  moreover have "length (generateCombinations ''abcd'' 2 3) = min (nat 3) (length ''abcd'' choose 2)"
    using l by simp
  ultimately show ?thesis by simp
qed

section \<open>Unresolvable emblems\<close>

text \<open>
  Claim C8. If either emblem id resolves to no region of the catalog, \<open>solveWorldRunes\<close>
  returns the empty list; the model has no error value to return instead.
\<close>

theorem solveWorldRunes_unknown_emblem:
  "getRegionById regs e1 = None \<or> getRegionById regs e2 = None \<Longrightarrow>
     solveWorldRunes us regs e1 e2 config = []"
  by (auto simp: solveWorldRunes_def)

theorem solveWorldRunes_unknown_emblem_witness:
  "getRegionById [\<lparr>rid = ''ionia'', rname = ''Ionia'', requiredUnits = Some 3\<rparr>] ''ionia'' \<noteq> None
   \<and> getRegionById [\<lparr>rid = ''ionia'', rname = ''Ionia'', requiredUnits = Some 3\<rparr>] ''zaun'' = None
   \<and> solveWorldRunes
         [\<lparr>uid = ''ahri'', name = ''Ahri'', cost = 2, regions = [''ionia''], unlockable = False\<rparr>]
         [\<lparr>rid = ''ionia'', rname = ''Ionia'', requiredUnits = Some 3\<rparr>] ''ionia'' ''zaun''
         \<lparr>maxBoardSize = 9, minUnits = 1, maxUnits = 9, cfgRequiredUnits = None,
          cfgExcludedUnits = None\<rparr> = []"
proof -
  have h: "getRegionById [\<lparr>rid = ''ionia'', rname = ''Ionia'', requiredUnits = Some 3\<rparr>] ''zaun'' = None"
    by (simp add: getRegionById_def)
  have "getRegionById [\<lparr>rid = ''ionia'', rname = ''Ionia'', requiredUnits = Some 3\<rparr>] ''ionia'' \<noteq> None"
    by (simp add: getRegionById_def)
  with h solveWorldRunes_unknown_emblem[OF disjI2, OF h] show ?thesis by simp
qed

section \<open>Unlock filter\<close>

lemma dedupLoop_length: "length (dedupLoop acc rs) \<le> length acc + length rs"
proof (induction rs arbitrary: acc)
  case (Cons r rs)
  show ?case using Cons[of acc] Cons[of "acc @ [(unitSignature r, r)]"]
    by (simp add: Let_def)
qed simp

lemma dedupLoop_set: "snd ` set (dedupLoop acc rs) \<subseteq> snd ` set acc \<union> set rs"
proof (induction rs arbitrary: acc)
  case (Cons r rs)
  show ?case using Cons[of acc] Cons[of "acc @ [(unitSignature r, r)]"]
    by (auto simp: Let_def)
qed simp

lemma filtered_length: "length (filtered rs unlockedIds) \<le> length rs"
proof -
  let ?kept = "filter (\<lambda>r. \<not> list_ex (isLocked (set unlockedIds)) (units (composition r))) rs"
  have "length (filtered rs unlockedIds) \<le> length ?kept"
    using dedupLoop_length[of "[]" ?kept] by (simp add: filtered_def)
  also have "\<dots> \<le> length rs" by simp
  finally show ?thesis .
qed

lemma filtered_subset: "set (filtered rs unlockedIds) \<subseteq> set rs"
proof -
  let ?kept = "filter (\<lambda>r. \<not> list_ex (isLocked (set unlockedIds)) (units (composition r))) rs"
  have "set (filtered rs unlockedIds) \<subseteq> set ?kept"
    using dedupLoop_set[of "[]" ?kept] by (simp add: filtered_def)
  then show ?thesis by auto
qed

lemma foldl_min_Min: "foldl min (a::nat) xs = Min (insert a (set xs))"
proof (induction xs arbitrary: a)
  case (Cons x xs)
  have "Min (insert (min a x) (set xs)) = Min (insert a (insert x (set xs)))"
    by (cases "set xs = {}") (auto simp: min.assoc)
  with Cons show ?case by simp
qed simp

lemma minUnitCount_Min: "rs \<noteq> [] \<Longrightarrow> minUnitCount rs = Min (unitCount ` set rs)"
  by (cases rs) (simp_all add: minUnitCount_def foldl_min_Min)

text \<open>
  Claim C9. The filtered list is never longer than the input list, and when it is not
  empty its minimum \<open>unitCount\<close> is at least the minimum over the input list; the
  code's own \<open>minimalAll\<close> and \<open>minimalFiltered\<close> are these minima.
\<close>

theorem filtered_monotone:
  "length (filtered rs unlockedIds) \<le> length rs
   \<and> (filtered rs unlockedIds \<noteq> [] \<longrightarrow>
        Min (unitCount ` set rs) \<le> Min (unitCount ` set (filtered rs unlockedIds))
        \<and> minimalAll rs = Min (unitCount ` set rs)
        \<and> minimalFiltered rs unlockedIds = Min (unitCount ` set (filtered rs unlockedIds)))"
proof (intro conjI impI)
  show "length (filtered rs unlockedIds) \<le> length rs" by (rule filtered_length)
next
  assume ne: "filtered rs unlockedIds \<noteq> []"
  with filtered_subset[of rs unlockedIds] have rne: "rs \<noteq> []" by auto
  have "unitCount ` set (filtered rs unlockedIds) \<subseteq> unitCount ` set rs"
    using filtered_subset[of rs unlockedIds] by blast
  then show "Min (unitCount ` set rs) \<le> Min (unitCount ` set (filtered rs unlockedIds))"
    using ne by (intro Min_antimono) auto
  show "minimalAll rs = Min (unitCount ` set rs)"
    using rne by (simp add: minimalAll_def minUnitCount_Min)
  show "minimalFiltered rs unlockedIds = Min (unitCount ` set (filtered rs unlockedIds))"
    using ne by (simp add: minimalFiltered_def minUnitCount_Min)
qed

theorem filtered_monotone_witness:
  "filtered [lockedResult, piltoverResult] [] = [piltoverResult]
   \<and> length (filtered [lockedResult, piltoverResult] []) \<le> length [lockedResult, piltoverResult]
   \<and> Min (unitCount ` set [lockedResult, piltoverResult]) = 4
   \<and> Min (unitCount ` set (filtered [lockedResult, piltoverResult] [])) = 5
   \<and> minimalAll [lockedResult, piltoverResult] = 4
   \<and> minimalFiltered [lockedResult, piltoverResult] [] = 5"
proof -
  have f: "filtered [lockedResult, piltoverResult] [] = [piltoverResult]"
    by code_simp
  have u: "unitCount lockedResult = 4" "unitCount piltoverResult = 5"
    by (simp_all add: lockedResult_def piltoverResult_def)
  from filtered_monotone[of "[lockedResult, piltoverResult]" "[]"] show ?thesis
    unfolding f by (simp add: u)
qed

text \<open>
  Claim C10. When the filter leaves nothing of a non-empty result list, the minimum of
  the empty filtered list is taken as 0, which is not above \<open>minimalAll\<close>, and no unlock
  suggestion is computed.
\<close>

theorem unlockSuggestions_empty_filtered:
  "filtered rs unlockedIds = [] \<Longrightarrow> rs \<noteq> [] \<Longrightarrow>
     minimalFiltered rs unlockedIds = 0
     \<and> \<not> filteredHasHigherMin rs unlockedIds
     \<and> unlockSuggestions rs unlockedIds = []"
  by (simp add: unlockSuggestions_def filteredHasHigherMin_def minimalFiltered_def
      minUnitCount_def)

theorem unlockSuggestions_empty_filtered_witness:
  "filtered [lockedResult] [] = [] \<and> [lockedResult] \<noteq> []
   \<and> minimalFiltered [lockedResult] [] = 0
   \<and> \<not> filteredHasHigherMin [lockedResult] []
   \<and> unlockSuggestions [lockedResult] [] = []"
proof -
  have f: "filtered [lockedResult] [] = []"
    by code_simp
  have n: "[lockedResult] \<noteq> []" by simp
  from unlockSuggestions_empty_filtered[OF f n] f n show ?thesis by simp
qed

section \<open>Loop rules\<close>

lemma forBudgetTop_inv:
  assumes "\<And>x s. P s \<Longrightarrow> P (body x s)" and "P st"
  shows "P (forBudgetTop mx body xs st)"
  using assms(2) by (induction xs arbitrary: st) (auto intro: assms(1))

lemma forBudgetEnd_inv:
  assumes "\<And>x s. P s \<Longrightarrow> P (body x s)" and "P st"
  shows "P (forBudgetEnd mx body xs st)"
  using assms(2) by (induction xs arbitrary: st) (auto simp: Let_def intro: assms(1))

lemma if_pres: "P a \<Longrightarrow> P b \<Longrightarrow> P (if c then a else b)"
  by simp

lemma set_insertBy: "set (insertBy cmp x ys) = insert x (set ys)"
  by (induction ys) auto

lemma set_sortBy: "set (sortBy cmp xs) = set xs"
  by (induction xs) (auto simp: sortBy_def set_insertBy)

lemma length_insertBy: "length (insertBy cmp x ys) = Suc (length ys)"
  by (induction ys) auto

lemma length_sortBy: "length (sortBy cmp xs) = length xs"
  by (induction xs) (auto simp: sortBy_def length_insertBy)

section \<open>Stored active regions and carriers of every result\<close>

lemma isValidComposition_good:
  assumes "valid (isValidComposition regs team e1 e2)"
  shows "goodResult e1 e2 (mkResult team (isValidComposition regs team e1 e2) tc)"
proof -
  from assms obtain u1 where u1: "find (\<lambda>u. e1 \<notin> set (regions u)) team = Some u1"
    by (cases "find (\<lambda>u. e1 \<notin> set (regions u)) team") (auto simp: isValidComposition_def)
  from assms u1 obtain u2 where u2: "find (\<lambda>u. e2 \<notin> set (regions u)) team = Some u2"
    by (cases "find (\<lambda>u. e2 \<notin> set (regions u)) team") (auto simp: isValidComposition_def)
  from u1 have m1: "u1 \<in> set team" "e1 \<notin> set (regions u1)"
    by (auto simp: find_Some_iff)
  from u2 have m2: "u2 \<in> set team" "e2 \<notin> set (regions u2)"
    by (auto simp: find_Some_iff)
  from assms u1 u2 have
    "4 \<le> length (vActiveRegions (isValidComposition regs team e1 e2))"
    "vEmblemAssignments (isValidComposition regs team e1 e2)
       = [\<lparr>unitId = uid u1, region = e1\<rparr>, \<lparr>unitId = uid u2, region = e2\<rparr>]"
    by (auto simp: isValidComposition_def Let_def split: if_splits)
  with m1 m2 show ?thesis
    unfolding goodResult_def mkResult_def by auto
qed

lemma smartCheck_good:
  "resultsGood (emblem1 env) (emblem2 env) st \<Longrightarrow>
     resultsGood (emblem1 env) (emblem2 env) (smartCheck env pre team st)"
  unfolding resultsGood_def smartCheck_def smartAccept_def
  by (auto simp: Let_def isValidComposition_good)

lemma tryPair_good:
  assumes "resultsGood (emblem1 env) (emblem2 env) st"
  shows "resultsGood (emblem1 env) (emblem2 env) (tryPair env dedup pre g1 g2 t pair st)"
proof -
  let ?P = "resultsGood (emblem1 env) (emblem2 env)"
  have fill: "?P (forBudgetTop mx (\<lambda>x. smartCheck env pre (f x)) xs st)" for mx f xs
    by (rule forBudgetTop_inv[where P = ?P]) (auto intro: smartCheck_good assms)
  show ?thesis
    unfolding tryPair_def Let_def
    by (intro if_pres[where P = ?P] smartCheck_good fill assms)
qed

lemma tryTargon_good:
  assumes "resultsGood (emblem1 env) (emblem2 env) st"
  shows "resultsGood (emblem1 env) (emblem2 env) (tryTargon env g1 g2 t st)"
proof -
  let ?P = "resultsGood (emblem1 env) (emblem2 env)"
  have loop: "?P s \<Longrightarrow> ?P (forBudgetTop mx (tryPair env dedup pre g1 g2 t) xs s)"
    for mx dedup pre xs s
    by (rule forBudgetTop_inv[where P = ?P]) (auto intro: tryPair_good)
  show ?thesis
    unfolding tryTargon_def Let_def by (intro loop assms)
qed

lemma smartPhase_good:
  assumes "resultsGood (emblem1 env) (emblem2 env) st"
  shows "resultsGood (emblem1 env) (emblem2 env) (smartPhase env st)"
proof -
  let ?P = "resultsGood (emblem1 env) (emblem2 env)"
  have l3: "?P s \<Longrightarrow> ?P (forBudgetEnd mx (tryTargon env g1 g2) xs s)" for mx g1 g2 xs s
    by (rule forBudgetEnd_inv[where P = ?P]) (auto intro: tryTargon_good)
  have l2: "?P s \<Longrightarrow> ?P (forBudgetEnd mx (\<lambda>g2. forBudgetEnd mx' (tryTargon env g1 g2) ts) xs s)"
    for mx mx' g1 ts xs s
    by (rule forBudgetEnd_inv[where P = ?P]) (auto intro: l3)
  have l1: "?P s \<Longrightarrow>
      ?P (forBudgetEnd mx (\<lambda>g1. forBudgetEnd mx' (\<lambda>g2. forBudgetEnd mx'' (tryTargon env g1 g2) ts) ys) xs s)"
    for mx mx' mx'' ts ys xs s
    by (rule forBudgetEnd_inv[where P = ?P]) (auto intro: l2)
  show ?thesis
    unfolding smartPhase_def Let_def
    by (intro if_pres[where P = ?P] l1 assms)
qed

lemma bruteLoop_good:
  "resultsGood (emblem1 env) (emblem2 env) st \<Longrightarrow>
     resultsGood (emblem1 env) (emblem2 env) (bruteLoop env teams st)"
proof (induction teams arbitrary: st)
  case (Cons t teams)
  let ?st1 = "st\<lparr>checkedCount := checkedCount st + 1\<rparr>"
  let ?v = "isValidComposition (envRegions env) t (emblem1 env) (emblem2 env)"
  have g1: "resultsGood (emblem1 env) (emblem2 env) ?st1"
    using Cons.prems by (simp add: resultsGood_def)
  have g2: "resultsGood (emblem1 env) (emblem2 env) (if valid ?v then bruteAccept t ?v ?st1 else ?st1)"
    using g1 by (auto simp: resultsGood_def bruteAccept_def Let_def isValidComposition_good)
  show ?case using g1 Cons.IH[OF g2] by (simp add: Let_def)
qed simp

lemma brutePhase_good:
  "resultsGood (emblem1 env) (emblem2 env) st \<Longrightarrow>
     resultsGood (emblem1 env) (emblem2 env) (brutePhase env st)"
proof -
  assume g: "resultsGood (emblem1 env) (emblem2 env) st"
  then have "resultsGood (emblem1 env) (emblem2 env) (st\<lparr>bruteSizes := bruteSizes st @ [teamSize env]\<rparr>)"
    by (simp add: resultsGood_def)
  then show ?thesis using g unfolding brutePhase_def
    by (auto intro: bruteLoop_good)
qed

lemma sizeStep_good:
  "resultsGood e1 e2 st \<Longrightarrow> resultsGood e1 e2 (sizeStep regs pool e1 e2 sz st)"
proof -
  assume g: "resultsGood e1 e2 st"
  let ?env = "mkEnv regs pool e1 e2 sz"
  have e: "emblem1 ?env = e1" "emblem2 ?env = e2" by (simp_all add: mkEnv_def)
  have "resultsGood (emblem1 ?env) (emblem2 ?env) (st\<lparr>checkedCount := 0\<rparr>)"
    using g by (simp add: resultsGood_def e)
  then have "resultsGood (emblem1 ?env) (emblem2 ?env) (brutePhase ?env (smartPhase ?env (st\<lparr>checkedCount := 0\<rparr>)))"
    by (intro brutePhase_good smartPhase_good)
  then show ?thesis by (simp add: sizeStep_def Let_def e)
qed

lemma sizeLoop_good:
  "resultsGood e1 e2 st \<Longrightarrow> resultsGood e1 e2 (sizeLoop regs pool e1 e2 szs st)"
  by (induction szs arbitrary: st) (auto intro: sizeStep_good)

lemma searchState_good: "resultsGood e1 e2 (searchState us regs e1 e2 config)"
  unfolding searchState_def Let_def
  by (intro sizeLoop_good) (simp add: resultsGood_def initState_def)

text \<open>
  What holds of every result that \<open>solveWorldRunes\<close> returns, whichever block pushed it:
  the stored list of active regions has at least four entries, there are exactly two emblem
  assignments, and each assignment names a unit of the composition whose own regions do not
  contain the assigned region. Whether the listed regions are active for the units of the
  composition is another matter, settled in the next section.
\<close>

theorem solveWorldRunes_valid:
  "\<forall>r \<in> set (solveWorldRunes us regs e1 e2 config).
     4 \<le> length (activeRegions (composition r))
     \<and> map region (emblemAssignments (composition r)) = [e1, e2]
     \<and> (\<forall>a \<in> set (emblemAssignments (composition r)).
           \<exists>u \<in> set (units (composition r)). uid u = unitId a \<and> region a \<notin> set (regions u))"
proof
  fix r assume "r \<in> set (solveWorldRunes us regs e1 e2 config)"
  then have "r \<in> set (results (searchState us regs e1 e2 config))"
    by (auto simp: solveWorldRunes_def set_sortBy split: if_splits)
  with searchState_good[of e1 e2 us regs config] have "goodResult e1 e2 r"
    by (simp add: resultsGood_def)
  then show "4 \<le> length (activeRegions (composition r))
     \<and> map region (emblemAssignments (composition r)) = [e1, e2]
     \<and> (\<forall>a \<in> set (emblemAssignments (composition r)).
           \<exists>u \<in> set (units (composition r)). uid u = unitId a \<and> region a \<notin> set (regions u))"
    unfolding goodResult_def by fastforce
qed

section \<open>Duplicate units from the Void block\<close>

text \<open>
  Claim C2 on the Void sample. The Void block builds its team without \<open>uniqueUnits\<close>:
  the Targon unit \<open>t1\<close> is also the first unit of the Void pair, and the three results
  of the smart phase list it twice.
\<close>

theorem void_block_duplicates_unit:
  "map (\<lambda>r. map uid (units (composition r)))
       (solveWorldRunes voidUnits sampleRegions ''ionia'' ''noxus'' (sampleConfig 5 5))
     = [[''t1'', ''t1'', ''v2'', ''f1'', ''f2''],
        [''t1'', ''t1'', ''v2'', ''f1'', ''f3''],
        [''t1'', ''t1'', ''v2'', ''f2'', ''f3''],
        [''t1'', ''v2'', ''f1'', ''f2'', ''f3'']]"
  by code_simp


section \<open>The quick pre-checks are missing from two blocks\<close>

text \<open>
  Claim C4 on the Shadow Isles sample, with Targon as first emblem. Every unit carries
  Targon, so no team has a carrier for the first emblem and the quick pre-checks reject
  each of them; the Shadow Isles block hands all five to \<open>isValidComposition\<close>.
\<close>

theorem shadow_block_skips_prefilter:
  "map (map uid) (validated (searchState shadowUnits sampleRegions ''targon'' ''noxus'' (sampleConfig 5 5)))
     = [[''t1'', ''s1'', ''s2'', ''f1'', ''f2''],
        [''s1'', ''s2'', ''t1'', ''f1'', ''f2''],
        [''s2'', ''s1'', ''t1'', ''f1'', ''f2''],
        [''f1'', ''s1'', ''s2'', ''t1'', ''f2''],
        [''f2'', ''s1'', ''s2'', ''t1'', ''f1'']]
   \<and> list_all (prefilterRejects (mkEnv sampleRegions shadowUnits ''targon'' ''noxus'' 5))
        (validated (searchState shadowUnits sampleRegions ''targon'' ''noxus'' (sampleConfig 5 5)))"
  by code_simp

section \<open>Results of the smart phase carry no total cost\<close>

text \<open>
  Claim C5 on the Piltover sample. The only result comes from the smart phase; its units
  cost 8 in total and its \<open>totalCost\<close> is absent.
\<close>

theorem smart_result_without_totalCost:
  "map totalCost (solveWorldRunes piltoverUnits sampleRegions ''ionia'' ''noxus'' (sampleConfig 5 5))
     = [None]
   \<and> map (\<lambda>r. sum_list (map cost (units (composition r))))
         (solveWorldRunes piltoverUnits sampleRegions ''ionia'' ''noxus'' (sampleConfig 5 5))
     = [8]"
  by code_simp

section \<open>When the brute-force phase runs\<close>

lemma smartCheck_bruteSizes: "bruteSizes (smartCheck env pre team st) = bruteSizes st"
  by (simp add: smartCheck_def smartAccept_def Let_def)

lemma tryPair_bruteSizes: "bruteSizes (tryPair env dedup pre g1 g2 t pair st) = bruteSizes st"
proof -
  let ?P = "\<lambda>s. bruteSizes s = bruteSizes st"
  have fill: "?P (forBudgetTop mx (\<lambda>x. smartCheck env pre (f x)) xs st)" for mx f xs
    by (rule forBudgetTop_inv[where P = ?P]) (simp_all add: smartCheck_bruteSizes)
  show ?thesis
    unfolding tryPair_def Let_def
    by (intro if_pres[where P = ?P] fill smartCheck_bruteSizes refl)
qed

lemma tryTargon_bruteSizes: "bruteSizes (tryTargon env g1 g2 t st) = bruteSizes st"
proof -
  let ?P = "\<lambda>s. bruteSizes s = bruteSizes st"
  have loop: "?P s \<Longrightarrow> ?P (forBudgetTop mx (tryPair env dedup pre g1 g2 t) xs s)"
    for mx dedup pre xs s
    by (rule forBudgetTop_inv[where P = ?P]) (simp_all add: tryPair_bruteSizes)
  show ?thesis
    unfolding tryTargon_def Let_def by (intro loop refl)
qed

lemma smartPhase_bruteSizes: "bruteSizes (smartPhase env st) = bruteSizes st"
proof -
  let ?P = "\<lambda>s. bruteSizes s = bruteSizes st"
  have l3: "?P s \<Longrightarrow> ?P (forBudgetEnd mx (tryTargon env g1 g2) xs s)" for mx g1 g2 xs s
    by (rule forBudgetEnd_inv[where P = ?P]) (simp_all add: tryTargon_bruteSizes)
  have l2: "?P s \<Longrightarrow> ?P (forBudgetEnd mx (\<lambda>g2. forBudgetEnd mx' (tryTargon env g1 g2) ts) xs s)"
    for mx mx' g1 ts xs s
    by (rule forBudgetEnd_inv[where P = ?P]) (auto intro: l3)
  have l1: "?P s \<Longrightarrow>
      ?P (forBudgetEnd mx (\<lambda>g1. forBudgetEnd mx' (\<lambda>g2. forBudgetEnd mx'' (tryTargon env g1 g2) ts) ys) xs s)"
    for mx mx' mx'' ts ys xs s
    by (rule forBudgetEnd_inv[where P = ?P]) (auto intro: l2)
  show ?thesis
    unfolding smartPhase_def Let_def
    by (intro if_pres[where P = ?P] l1 refl)
qed

lemma bruteLoop_bruteSizes: "bruteSizes (bruteLoop env teams st) = bruteSizes st"
  by (induction teams arbitrary: st) (simp_all add: Let_def bruteAccept_def)

text \<open>
  Claim C7, amended. In one iteration of the size loop the brute-force generator is
  created exactly when the result list, as the smart phase of that iteration leaves it,
  has fewer than 10 entries. The list holds everything accepted so far in the run, by
  either phase.
\<close>

theorem brute_force_attempted_iff:
  "bruteSizes (sizeStep regs pool e1 e2 sz st) =
     (if length (results (smartPhase (mkEnv regs pool e1 e2 sz) (st\<lparr>checkedCount := 0\<rparr>))) < 10
      then bruteSizes st @ [sz] else bruteSizes st)"
  by (simp add: sizeStep_def Let_def brutePhase_def bruteLoop_bruteSizes smartPhase_bruteSizes
      mkEnv_def)

text \<open>
  Claim C7 as stated fails on the plain sample with sizes 3 and 4. The smart phase never
  accepts anything (there is no Targon unit), the brute-force phase of size 3 accepts ten
  teams, and in the iteration of size 4 the brute-force phase is not attempted.
\<close>

theorem brute_force_gate_counterexample:
  "searchState plainUnits sampleRegions ''ionia'' ''noxus'' (sampleConfig 3 4)
     = sizeStep sampleRegions plainUnits ''ionia'' ''noxus'' 4
         (sizeStep sampleRegions plainUnits ''ionia'' ''noxus'' 3 initState)
   \<and> smartAccepted (searchState plainUnits sampleRegions ''ionia'' ''noxus'' (sampleConfig 3 4)) = 0
   \<and> bruteSizes (searchState plainUnits sampleRegions ''ionia'' ''noxus'' (sampleConfig 3 4)) = [3]
   \<and> length (results (searchState plainUnits sampleRegions ''ionia'' ''noxus'' (sampleConfig 3 4))) = 10"
  by code_simp

theorem brute_force_attempted_iff_witness:
  "length (results (smartPhase (mkEnv sampleRegions piltoverUnits ''ionia'' ''noxus'' 5)
                      (initState\<lparr>checkedCount := 0\<rparr>))) = 1
   \<and> bruteSizes (sizeStep sampleRegions piltoverUnits ''ionia'' ''noxus'' 5 initState) = [5]"
proof -
  have l: "length (results (smartPhase (mkEnv sampleRegions piltoverUnits ''ionia'' ''noxus'' 5)
                      (initState\<lparr>checkedCount := 0\<rparr>))) = 1"
    by code_simp
  have b: "bruteSizes initState = []" by (simp add: initState_def)
  from brute_force_attempted_iff[of sampleRegions piltoverUnits "''ionia''" "''noxus''" 5 initState]
  show ?thesis unfolding l b by simp
qed

section \<open>The cap on the result list\<close>

lemma bruteLoop_at_cap:
  "MAX_TOTAL_RESULTS \<le> int (length (results st)) \<Longrightarrow> results (bruteLoop env teams st) = results st"
  by (cases teams) (simp_all add: Let_def)

lemma sizeLoop_at_cap:
  "MAX_TOTAL_RESULTS \<le> int (length (results st)) \<Longrightarrow> sizeLoop regs pool e1 e2 szs st = st"
  by (cases szs) simp_all

text \<open>
  Claim C3 against the code. The brute-force loop and the size loop stop at the cap
  (\<open>bruteLoop_at_cap\<close>, \<open>sizeLoop_at_cap\<close>), but a candidate of the smart phase is
  appended whatever the length of the result list: a valid candidate with a new key makes
  a list that has reached the cap one longer.
\<close>

theorem smartCheck_ignores_cap:
  assumes "MAX_TOTAL_RESULTS \<le> int (length (results st))"
    and "\<not> (pre \<and> prefilterRejects env team)"
    and "valid (isValidComposition (envRegions env) team (emblem1 env) (emblem2 env))"
    and "compositionKey team \<notin> seenCompositions st"
  shows "length (results (smartCheck env pre team st)) = length (results st) + 1
         \<and> MAX_TOTAL_RESULTS < int (length (results (smartCheck env pre team st)))"
  using assms by (auto simp: smartCheck_def smartAccept_def Let_def)

theorem smartCheck_ignores_cap_witness:
  "MAX_TOTAL_RESULTS \<le> int (length (results cappedState))
   \<and> \<not> (True \<and> prefilterRejects (mkEnv sampleRegions piltoverUnits ''ionia'' ''noxus'' 5) piltoverUnits)
   \<and> valid (isValidComposition sampleRegions piltoverUnits ''ionia'' ''noxus'')
   \<and> compositionKey piltoverUnits \<notin> seenCompositions cappedState
   \<and> length (results (smartCheck (mkEnv sampleRegions piltoverUnits ''ionia'' ''noxus'' 5) True
                         piltoverUnits cappedState)) = 2001"
proof -
  let ?env = "mkEnv sampleRegions piltoverUnits ''ionia'' ''noxus'' 5"
  have e: "envRegions ?env = sampleRegions" "emblem1 ?env = ''ionia''" "emblem2 ?env = ''noxus''"
    by (simp_all add: mkEnv_def)
  have h1: "MAX_TOTAL_RESULTS \<le> int (length (results cappedState))"
    by (simp add: cappedState_def MAX_TOTAL_RESULTS_def)
  have h2: "\<not> (True \<and> prefilterRejects ?env piltoverUnits)"
    by code_simp
  have h3: "valid (isValidComposition sampleRegions piltoverUnits ''ionia'' ''noxus'')"
    by code_simp
  have h4: "compositionKey piltoverUnits \<notin> seenCompositions cappedState"
    by (simp add: cappedState_def initState_def)
  have l: "length (results cappedState) = 2000"
    by (simp add: cappedState_def)
  from smartCheck_ignores_cap[of cappedState True ?env piltoverUnits, unfolded e, OF h1 h2 h3 h4]
    h1 h2 h3 h4 l show ?thesis by simp
qed

end
